theory Spec2Isabelle
  imports Complex_Main "HOL-Library.Word"
begin

section \<open>BrainWave: the SimpleBrain component of src/necessary/App.tsx\<close>

text \<open>
  The component keeps its data in React state cells and in the local variables of the
  closure \<open>startEyeTracking\<close>. Each cell becomes a field of a record, each callback a
  function from the old record to the new one. JavaScript numbers are modelled as
  \<^typ>\<open>real\<close> (activity scalars, brightness) or \<^typ>\<open>int\<close> (counters, millisecond
  timestamps); rounding of IEEE doubles is not modelled.
\<close>

subsection \<open>Brain data and the polling session\<close>

text \<open>The payload of \<open>GET /api/data\<close>, held in the state cell \<open>brainData\<close>.\<close>

record brain_data =
  left :: real
  right :: real
  state :: string
  blink :: bool
  eye_position :: string

text \<open>The \<open>data\<close> object of \<open>GET /api/mental_state\<close>; a missing or empty
  \<open>eye_position\<close> is \<open>None\<close>.\<close>

record mental_state =
  left_brain_activity :: real
  right_brain_activity :: real
  ms_state :: string
  blink_detected :: bool
  ms_eye_position :: "string option"

text \<open>The state cells read and written by \<open>fetchData\<close> and \<open>handleReset\<close>.\<close>

record session =
  connected :: bool
  brainData :: "brain_data option"
  errorCount :: int
  lastErrorTime :: int

text \<open>
  What one run of \<open>fetchData\<close> meets on the network:
  \<^item> \<open>DataOk d\<close>: \<open>/api/data\<close> answers ok with a payload without \<open>error\<close>;
  \<^item> \<open>MentalStateOk m\<close>: \<open>/api/data\<close> answers but is not usable, and
    \<open>/api/mental_state\<close> answers ok with \<open>success\<close> and \<open>data\<close>;
  \<^item> \<open>BothFailed\<close>: both endpoints answer, neither with a usable payload;
  \<^item> \<open>Threw\<close>: a \<open>fetch\<close> or a \<open>json()\<close> call throws, so control reaches the
    \<open>catch\<close> block.
\<close>

datatype poll_outcome =
  DataOk brain_data
| MentalStateOk mental_state
| BothFailed
| Threw

text \<open>\<open>handleReset\<close>: the \<open>try\<close> and the \<open>catch\<close> branch set the same three cells.\<close>

definition handleReset :: "session \<Rightarrow> session" where
  "handleReset s = s\<lparr>connected := False, brainData := None, errorCount := 0\<rparr>"

text \<open>The conversion of the mental-state shape (\<open>eye_position || 'center'\<close>).\<close>

definition fromMentalState :: "mental_state \<Rightarrow> brain_data" where
  "fromMentalState m =
     \<lparr>left = left_brain_activity m,
      right = right_brain_activity m,
      state = ms_state m,
      blink = blink_detected m,
      eye_position = (case ms_eye_position m of None \<Rightarrow> ''center'' | Some p \<Rightarrow> p)\<rparr>"

text \<open>
  \<open>fetchData\<close>, at \<open>Date.now() = now\<close>. The test \<open>errorCount > 5\<close> reads the value
  the closure captured, that is the counter before this run's increment; the functional
  update \<open>prev + 1\<close> is queued before \<open>handleReset\<close> stores 0.
\<close>

fun fetchData :: "int \<Rightarrow> poll_outcome \<Rightarrow> session \<Rightarrow> session" where
  "fetchData now (DataOk d) s = s\<lparr>brainData := Some d, errorCount := 0\<rparr>"
| "fetchData now (MentalStateOk m) s =
     s\<lparr>brainData := Some (fromMentalState m), errorCount := 0\<rparr>"
| "fetchData now BothFailed s =
     (let s1 = (if now - lastErrorTime s > 5000
                then s\<lparr>errorCount := errorCount s + 1, lastErrorTime := now\<rparr>
                else s)
      in if errorCount s > 5 then handleReset s1 else s1)"
| "fetchData now Threw s = s\<lparr>errorCount := errorCount s + 1\<rparr>"

text \<open>A sequence of polls, each with its clock reading, oldest first.\<close>

fun polls :: "session \<Rightarrow> (int \<times> poll_outcome) list \<Rightarrow> session" where
  "polls s [] = s"
| "polls s ((now, r) # rest) = polls (fetchData now r s) rest"

text \<open>The session right after a successful connect: \<open>handleConnect\<close> has set
  \<open>connected\<close> and cleared the counter; \<open>lastErrorTime\<close> still holds its initial 0.\<close>

definition connectedSession :: session where
  "connectedSession = \<lparr>connected = True, brainData = None, errorCount = 0, lastErrorTime = 0\<rparr>"

text \<open>\<open>getBrainSide\<close>; \<open>None\<close> is JavaScript's \<open>null\<close>.\<close>

definition getBrainSide :: "brain_data option \<Rightarrow> string option" where
  "getBrainSide bd =
     (case bd of
        None \<Rightarrow> None
      | Some d \<Rightarrow>
          if left d > right d + 0.1 then Some ''left''
          else if right d > left d + 0.1 then Some ''right''
          else Some ''balanced'')"

text \<open>The label rule of \<open>updateBrainValues\<close> (the nested conditional stored in
  \<open>state\<close>).\<close>

definition stateLabel :: "real \<Rightarrow> real \<Rightarrow> string" where
  "stateLabel newLeftValue newRightValue =
     (if newLeftValue > newRightValue * 1.2 then ''analytical''
      else if newRightValue > newLeftValue * 1.2 then ''creative''
      else ''balanced'')"

subsection \<open>Activity smoother\<close>

text \<open>The state cell \<open>eyePosition\<close> has the type \<open>'left' | 'right' | 'center'\<close>.\<close>

datatype direction = DirLeft | DirRight | DirCenter

text \<open>
  The body of \<open>updateBrainValues\<close> up to the clamp, one function per local variable.
  \<open>rnd\<close> is the value \<open>Math.random()\<close> returned for that variable.
\<close>

definition newLeftValue :: "direction \<Rightarrow> real \<Rightarrow> brain_data \<Rightarrow> real" where
  "newLeftValue eyePosition rnd bd =
     (let v = (case eyePosition of
                 DirLeft \<Rightarrow> left bd - (left bd - 0.2) * 0.2
               | DirRight \<Rightarrow> left bd + (0.9 - left bd) * 0.2
               | DirCenter \<Rightarrow> left bd + (0.6 - left bd) * 0.1);
          v = v + (rnd * 0.03 - 0.015)
      in max 0.1 (min 0.95 v))"

definition newRightValue :: "direction \<Rightarrow> real \<Rightarrow> brain_data \<Rightarrow> real" where
  "newRightValue eyePosition rnd bd =
     (let v = (case eyePosition of
                 DirLeft \<Rightarrow> right bd + (0.9 - right bd) * 0.2
               | DirRight \<Rightarrow> right bd - (right bd - 0.2) * 0.2
               | DirCenter \<Rightarrow> right bd + (0.65 - right bd) * 0.1);
          v = v + (rnd * 0.03 - 0.015)
      in max 0.1 (min 0.95 v))"

text \<open>\<open>updateBrainValues\<close>: \<open>Some\<close> is the argument of the call to \<open>setBrainData\<close>,
  \<open>None\<close> says that no call is made.\<close>

definition updateBrainValues ::
  "direction \<Rightarrow> real \<Rightarrow> real \<Rightarrow> brain_data \<Rightarrow> brain_data option" where
  "updateBrainValues eyePosition rnd1 rnd2 bd =
     (let l = newLeftValue eyePosition rnd1 bd;
          r = newRightValue eyePosition rnd2 bd
      in if \<bar>l - left bd\<bar> > 0.001 \<or> \<bar>r - right bd\<bar> > 0.001
         then Some (bd\<lparr>left := l, right := r, state := stateLabel l r\<rparr>)
         else None)"

text \<open>One firing of the 100ms interval, as a transition of the cell \<open>brainData\<close>; a tick
  carries the direction it reads and its two random draws.\<close>

definition smoothingTick :: "brain_data \<Rightarrow> direction \<times> real \<times> real \<Rightarrow> brain_data" where
  "smoothingTick bd tick =
     (case tick of (eyePosition, rnd1, rnd2) \<Rightarrow>
        (case updateBrainValues eyePosition rnd1 rnd2 bd of
           None \<Rightarrow> bd
         | Some bd' \<Rightarrow> bd'))"

definition smoothingTicks :: "brain_data \<Rightarrow> (direction \<times> real \<times> real) list \<Rightarrow> brain_data" where
  "smoothingTicks bd ticks = foldl smoothingTick bd ticks"

definition activityInRange :: "brain_data \<Rightarrow> bool" where
  "activityInRange bd \<longleftrightarrow>
     0.1 \<le> left bd \<and> left bd \<le> 0.95 \<and> 0.1 \<le> right bd \<and> right bd \<le> 0.95"

text \<open>
  The smoothing rule in the specification's words: a scalar moves a fraction \<open>rate\<close> of
  its gap towards \<open>target\<close>; the pair is (left, right).
\<close>

definition spec_pull :: "real \<Rightarrow> real \<Rightarrow> real \<Rightarrow> real" where
  "spec_pull target rate x = x + (target - x) * rate"

definition spec_smoothed :: "direction \<Rightarrow> real \<Rightarrow> real \<Rightarrow> real \<times> real" where
  "spec_smoothed d l r =
     (case d of
        DirLeft \<Rightarrow> (l - (l - 0.2) * 0.2, r + (0.9 - r) * 0.2)
      | DirRight \<Rightarrow> (spec_pull 0.9 0.2 l, spec_pull 0.2 0.2 r)
      | DirCenter \<Rightarrow> (spec_pull 0.6 0.1 l, spec_pull 0.65 0.1 r))"

definition spec_clamp :: "real \<Rightarrow> real" where
  "spec_clamp v = (if v < 0.1 then 0.1 else if v > 0.95 then 0.95 else v)"

definition spec_label :: "real \<Rightarrow> real \<Rightarrow> string" where
  "spec_label l r =
     (if l > r * 1.2 then ''analytical'' else if r > l * 1.2 then ''creative'' else ''balanced'')"

text \<open>Concrete activity states used as inputs below.\<close>

definition activityAt :: "real \<Rightarrow> real \<Rightarrow> brain_data" where
  "activityAt l r = \<lparr>left = l, right = r, state = ''balanced'', blink = False, eye_position = ''center''\<rparr>"

subsection \<open>Frame sampler\<close>

text \<open>
  \<open>calculateBrightness\<close> reads a \<open>Uint8ClampedArray\<close>: a list of bytes, four per
  pixel. An index past the end reads \<open>undefined\<close>, which turns the sum into \<open>NaN\<close>;
  \<open>None\<close> stands for \<open>NaN\<close>.
\<close>

definition byteAt :: "8 word list \<Rightarrow> nat \<Rightarrow> real option" where
  "byteAt data i = (if i < length data then Some (real (unat (data ! i))) else None)"

definition weighted :: "real option \<Rightarrow> real option \<Rightarrow> real option \<Rightarrow> real option" where
  "weighted r g b =
     (case (r, g, b) of
        (Some rv, Some gv, Some bv) \<Rightarrow> Some (rv * 0.299 + gv * 0.587 + bv * 0.114)
      | _ \<Rightarrow> None)"

definition addNum :: "real option \<Rightarrow> real option \<Rightarrow> real option" where
  "addNum x y = (case (x, y) of (Some a, Some b) \<Rightarrow> Some (a + b) | _ \<Rightarrow> None)"

text \<open>The \<open>for\<close> loop of \<open>calculateBrightness\<close>, from index \<open>i\<close> with the running
  \<open>sum\<close> and \<open>count\<close>.\<close>

function brightnessLoop ::
  "8 word list \<Rightarrow> nat \<Rightarrow> real option \<Rightarrow> nat \<Rightarrow> real option \<times> nat" where
  "brightnessLoop data i sumv count =
     (if i < length data
      then brightnessLoop data (i + 16)
             (addNum sumv (weighted (byteAt data i) (byteAt data (i + 1)) (byteAt data (i + 2))))
             (count + 1)
      else (sumv, count))"
  by pat_completeness auto
termination
  by (relation "measure (\<lambda>(data, i, sumv, count). length data - i)") auto

declare brightnessLoop.simps [simp del]

definition calculateBrightness :: "8 word list \<Rightarrow> real option" where
  "calculateBrightness data =
     (case brightnessLoop data 0 (Some 0) 0 of
        (sumv, count) \<Rightarrow>
          if count > 0
          then (case sumv of None \<Rightarrow> None | Some v \<Rightarrow> Some (v / real count))
          else Some 0)"

text \<open>
  The specification's reading: the buffer is a row of pixels of four bytes; every fourth
  pixel is sampled, that is the pixels at byte offsets 0, 16, 32, ...; the brightness is
  the arithmetic mean of 0.299 R + 0.587 G + 0.114 B over the sampled pixels.
\<close>

definition spec_luma :: "8 word list \<Rightarrow> nat \<Rightarrow> real" where
  "spec_luma data off =
     0.299 * real (unat (data ! off)) + 0.587 * real (unat (data ! (off + 1))) +
     0.114 * real (unat (data ! (off + 2)))"

definition spec_sampled :: "8 word list \<Rightarrow> nat list" where
  "spec_sampled data = map (\<lambda>j. 16 * j) [0 ..< (length data + 15) div 16]"

definition spec_mean :: "real list \<Rightarrow> real" where
  "spec_mean vs = sum_list vs / real (length vs)"

subsection \<open>Direction and blink estimator\<close>

text \<open>The three values \<open>leftBrightness\<close>, \<open>centerBrightness\<close>, \<open>rightBrightness\<close> of
  one processed frame.\<close>

record brightness =
  leftBrightness :: real
  centerBrightness :: real
  rightBrightness :: real

text \<open>
  A quotient of two JavaScript numbers: a division by zero gives an infinity or \<open>NaN\<close>
  and raises nothing. (The zero is the positive one: brightness values are sums of
  non-negative terms.)
\<close>

datatype jsnum = Finite real | PosInfinity | NegInfinity | NaN

definition js_div :: "real \<Rightarrow> real \<Rightarrow> jsnum" where
  "js_div x y =
     (if y = 0 then (if x > 0 then PosInfinity else if x < 0 then NegInfinity else NaN)
      else Finite (x / y))"

fun js_gt :: "jsnum \<Rightarrow> real \<Rightarrow> bool" where
  "js_gt (Finite v) c = (v > c)"
| "js_gt PosInfinity c = True"
| "js_gt NegInfinity c = False"
| "js_gt NaN c = False"

text \<open>The local object \<open>eyePositionCounter\<close>.\<close>

record votes =
  vote_left :: int
  vote_right :: int
  vote_center :: int

text \<open>
  What \<open>processFrame\<close> reads and writes: the closure's \<open>eyePositionCounter\<close> and
  \<open>prevTotalBrightness\<close>, the state cells \<open>eyePosition\<close> and \<open>blinkDetected\<close>, and
  the pending \<open>setTimeout\<close> callbacks that clear the blink flag, each by the time at
  which it is due. Only the writes of \<open>processFrame\<close> and of its timers are modelled;
  the poll of \<open>/api/eye_data\<close>, which stores remote values in the same two cells, is
  not part of the estimator.
\<close>

record tracker =
  eyePositionCounter :: votes
  prevTotalBrightness :: real
  eyePosition :: direction
  blinkDetected :: bool
  blinkTimers :: "int list"

text \<open>\<open>startEyeTracking\<close> on a freshly mounted component: the counters start centred
  and the two state cells hold their initial values.\<close>

definition startEyeTracking :: tracker where
  "startEyeTracking =
     \<lparr>eyePositionCounter = \<lparr>vote_left = 0, vote_right = 0, vote_center = 5\<rparr>,
      prevTotalBrightness = 0,
      eyePosition = DirCenter,
      blinkDetected = False,
      blinkTimers = []\<rparr>"

text \<open>The two comparisons of the \<open>if\<close> chain.\<close>

definition looksLeft :: "brightness \<Rightarrow> bool" where
  "looksLeft b \<longleftrightarrow>
     js_gt (js_div (leftBrightness b) (centerBrightness b * 0.8)) 1.1 \<and>
     leftBrightness b > rightBrightness b * 1.1"

definition looksRight :: "brightness \<Rightarrow> bool" where
  "looksRight b \<longleftrightarrow>
     js_gt (js_div (rightBrightness b) (centerBrightness b * 0.8)) 1.1 \<and>
     rightBrightness b > leftBrightness b * 1.1"

text \<open>The local \<open>newPosition\<close>: the direction this frame votes for.\<close>

definition newPosition :: "brightness \<Rightarrow> direction" where
  "newPosition b = (if looksLeft b then DirLeft else if looksRight b then DirRight else DirCenter)"

text \<open>The counter updates of the three branches.\<close>

definition countVote :: "brightness \<Rightarrow> votes \<Rightarrow> votes" where
  "countVote b c =
     (if looksLeft b then
        \<lparr>vote_left = vote_left c + 1,
         vote_right = max 0 (vote_right c - 1),
         vote_center = max 0 (vote_center c - 1)\<rparr>
      else if looksRight b then
        \<lparr>vote_left = max 0 (vote_left c - 1),
         vote_right = vote_right c + 1,
         vote_center = max 0 (vote_center c - 1)\<rparr>
      else
        \<lparr>vote_left = max 0 (vote_left c - 1),
         vote_right = max 0 (vote_right c - 1),
         vote_center = vote_center c + 1\<rparr>)"

definition maxCount :: "votes \<Rightarrow> int" where
  "maxCount c = max (vote_left c) (max (vote_center c) (vote_right c))"

text \<open>The local \<open>currentPosition\<close> and the counters after a reset.\<close>

definition currentPosition :: "votes \<Rightarrow> direction" where
  "currentPosition c =
     (if maxCount c = vote_left c then DirLeft
      else if maxCount c = vote_right c then DirRight
      else DirCenter)"

definition resetCounter :: "direction \<Rightarrow> votes" where
  "resetCounter d =
     (case d of
        DirLeft \<Rightarrow> \<lparr>vote_left = 2, vote_right = 0, vote_center = 0\<rparr>
      | DirRight \<Rightarrow> \<lparr>vote_left = 0, vote_right = 2, vote_center = 0\<rparr>
      | DirCenter \<Rightarrow> \<lparr>vote_left = 0, vote_right = 0, vote_center = 2\<rparr>)"

text \<open>
  The body of \<open>processFrame\<close> for a frame that is processed, at time \<open>now\<close>, with the
  brightness of its three regions: the blink test, the vote, the commit.
\<close>

definition processFrame :: "int \<Rightarrow> brightness \<Rightarrow> tracker \<Rightarrow> tracker" where
  "processFrame now b s =
     (let totalBrightness = leftBrightness b + centerBrightness b + rightBrightness b;
          brightnessDiff = \<bar>totalBrightness - prevTotalBrightness s\<bar>;
          s1 = (if brightnessDiff > 15
                then s\<lparr>blinkDetected := True, blinkTimers := blinkTimers s @ [now + 300]\<rparr>
                else s);
          s2 = s1\<lparr>prevTotalBrightness := totalBrightness\<rparr>;
          c = countVote b (eyePositionCounter s2)
      in if maxCount c > 5
         then s2\<lparr>eyePosition := currentPosition c,
                 eyePositionCounter := resetCounter (currentPosition c)\<rparr>
         else s2\<lparr>eyePositionCounter := c\<rparr>)"

text \<open>The timer callbacks due by \<open>now\<close> run: each stores false in \<open>blinkDetected\<close>.\<close>

definition fireTimers :: "int \<Rightarrow> tracker \<Rightarrow> tracker" where
  "fireTimers now s =
     (if list_ex (\<lambda>due. due \<le> now) (blinkTimers s)
      then s\<lparr>blinkDetected := False, blinkTimers := filter (\<lambda>due. now < due) (blinkTimers s)\<rparr>
      else s)"

text \<open>A sequence of processed frames, each with its time and brightness, oldest first;
  the timers due by a frame's time run before the frame.\<close>

fun frames :: "tracker \<Rightarrow> (int \<times> brightness) list \<Rightarrow> tracker" where
  "frames s [] = s"
| "frames s ((now, b) # rest) = frames (processFrame now b (fireTimers now s)) rest"

text \<open>The counter a direction owns, and the number of frames of a history that voted for
  a direction.\<close>

definition voteOf :: "direction \<Rightarrow> votes \<Rightarrow> int" where
  "voteOf d c = (case d of DirLeft \<Rightarrow> vote_left c | DirRight \<Rightarrow> vote_right c | DirCenter \<Rightarrow> vote_center c)"


text \<open>Concrete samples used as inputs below.\<close>

definition sample :: "real \<Rightarrow> real \<Rightarrow> real \<Rightarrow> brightness" where
  "sample l c r = \<lparr>leftBrightness = l, centerBrightness = c, rightBrightness = r\<rparr>"

text \<open>The range in which the counters stay between frames.\<close>

definition votesBounded :: "votes \<Rightarrow> bool" where
  "votesBounded c \<longleftrightarrow>
     0 \<le> vote_left c \<and> vote_left c \<le> 5 \<and> 0 \<le> vote_right c \<and> vote_right c \<le> 5 \<and>
     0 \<le> vote_center c \<and> vote_center c \<le> 5"

section \<open>Polling session\<close>

text \<open>
  The path on which both endpoints answer without a usable payload: the counter rises by
  at most one, and only when more than 5000ms have passed since \<open>lastErrorTime\<close>,
  which the increment moves to \<open>now\<close>; with a counter above 5 the session is reset.
\<close>

lemma fetchData_failed_rate_limited:
  "errorCount (fetchData now BothFailed s) \<le> errorCount s + 1"
  "errorCount (fetchData now BothFailed s) > errorCount s \<Longrightarrow>
     now - lastErrorTime s > 5000 \<and> lastErrorTime (fetchData now BothFailed s) = now"
  by (auto simp: Let_def handleReset_def split: if_splits)

lemma fetchData_failed_resets:
  "errorCount s > 5 \<Longrightarrow>
     connected (fetchData now BothFailed s) = False \<and>
     brainData (fetchData now BothFailed s) = None \<and>
     errorCount (fetchData now BothFailed s) = 0"
  by (simp add: Let_def handleReset_def)

text \<open>
  C1 (the error counter rises at most once in any 5 seconds, however the polls fail)
  does not hold of the code. Two polls 200ms apart that both fail by throwing raise the
  counter by two: the \<open>catch\<close> block increments without consulting
  \<open>lastErrorTime\<close>.
\<close>

theorem fetchData_throw_counts_every_poll:
  "errorCount (polls connectedSession [(1000000, Threw), (1000200, Threw)]) = 2"
  by (simp add: connectedSession_def)

text \<open>
  C2 (a counter above 5 resets the session on every polling path) does not hold of the
  code. Seven polls in a row that fail by throwing leave the counter at 7 with the
  session still connected: the \<open>catch\<close> block never tests the counter and never
  calls \<open>handleReset\<close>.
\<close>

theorem fetchData_throw_never_resets:
  "polls connectedSession
     [(1000000, Threw), (1000200, Threw), (1000400, Threw), (1000600, Threw),
      (1000800, Threw), (1001000, Threw), (1001200, Threw)]
   = \<lparr>connected = True, brainData = None, errorCount = 7, lastErrorTime = 0\<rparr>"
  by (simp add: connectedSession_def)

section \<open>Activity smoother\<close>

lemma clamp_bounds:
  "0.1 \<le> max 0.1 (min 0.95 (v::real)) \<and> max 0.1 (min 0.95 v) \<le> 0.95"
  by (simp add: max_def min_def)

lemma newLeftValue_bounds:
  "0.1 \<le> newLeftValue d rnd bd \<and> newLeftValue d rnd bd \<le> 0.95"
  unfolding newLeftValue_def Let_def by (rule clamp_bounds)

lemma newRightValue_bounds:
  "0.1 \<le> newRightValue d rnd bd \<and> newRightValue d rnd bd \<le> 0.95"
  unfolding newRightValue_def Let_def by (rule clamp_bounds)

lemma updateBrainValues_in_range:
  "updateBrainValues d rnd1 rnd2 bd = Some bd' \<Longrightarrow> activityInRange bd'"
  using newLeftValue_bounds [of d rnd1 bd] newRightValue_bounds [of d rnd2 bd]
  by (auto simp: updateBrainValues_def Let_def activityInRange_def split: if_splits)

lemma smoothingTick_in_range:
  "activityInRange bd \<Longrightarrow> activityInRange (smoothingTick bd tick)"
  by (auto simp: smoothingTick_def split: prod.splits option.splits
      dest: updateBrainValues_in_range)

lemma smoothingTicks_in_range:
  "activityInRange bd \<Longrightarrow> activityInRange (smoothingTicks bd ticks)"
  unfolding smoothingTicks_def
  by (induction ticks arbitrary: bd) (simp_all add: smoothingTick_in_range)

lemma smoothingTicks_append:
  "smoothingTicks bd (xs @ ys) = smoothingTicks (smoothingTicks bd xs) ys"
  by (simp add: smoothingTicks_def)

lemma smoothingTicks_Cons:
  "smoothingTicks bd (x # xs) = smoothingTicks (smoothingTick bd x) xs"
  by (simp add: smoothingTicks_def)

lemma committed_tick_in_range:
  assumes "updateBrainValues d rnd1 rnd2 bd \<noteq> None"
  shows "activityInRange (smoothingTick bd (d, rnd1, rnd2))"
proof -
  from assms obtain bd' where c: "updateBrainValues d rnd1 rnd2 bd = Some bd'" by auto
  from updateBrainValues_in_range [OF c] c show ?thesis by (simp add: smoothingTick_def)
qed

lemma in_range_after_commit:
  assumes "updateBrainValues d rnd1 rnd2 (smoothingTicks bd earlier) \<noteq> None"
  shows "activityInRange (smoothingTicks bd (earlier @ (d, rnd1, rnd2) # later))"
  unfolding smoothingTicks_append smoothingTicks_Cons
  by (rule smoothingTicks_in_range [OF committed_tick_in_range [OF assms]])

text \<open>
  C3, amended. Whatever the direction and the two random draws, a tick that commits
  (calls \<open>setBrainData\<close>) commits scalars within [0.1, 0.95], from any previous state.
  From scalars within [0.1, 0.95] every sequence of ticks, with any directions and any
  draws, ends with scalars within [0.1, 0.95]; and from any scalars at all, once one
  tick of a sequence has committed, the scalars are within [0.1, 0.95] after every later
  tick.
\<close>

theorem activity_scalars_within_bounds:
  "(updateBrainValues d rnd1 rnd2 bd = Some bd' \<longrightarrow> activityInRange bd') \<and>
   (activityInRange bd \<longrightarrow> activityInRange (smoothingTicks bd ticks)) \<and>
   (updateBrainValues e rnd3 rnd4 (smoothingTicks start earlier) \<noteq> None \<longrightarrow>
      activityInRange (smoothingTicks start (earlier @ (e, rnd3, rnd4) # later)))"
  using updateBrainValues_in_range smoothingTicks_in_range in_range_after_commit by blast

text \<open>
  C3 as stated fails. The remote payload is adopted as it comes, so \<open>brainData\<close> may
  hold left = 0.9505 with right = 0.2. With direction right and draws 0.9 and 0.5 the new
  left value is clamped to 0.95, a change of 0.0005, and right does not move: the tick
  commits nothing, and after three such ticks left is still 0.9505, above 0.95.
\<close>

theorem skipped_tick_stays_out_of_range_counterexample:
  "updateBrainValues DirRight 0.9 0.5 (activityAt 0.9505 0.2) = None \<and>
   smoothingTicks (activityAt 0.9505 0.2)
     [(DirRight, 0.9, 0.5), (DirRight, 0.9, 0.5), (DirRight, 0.9, 0.5)] = activityAt 0.9505 0.2 \<and>
   left (smoothingTicks (activityAt 0.9505 0.2)
     [(DirRight, 0.9, 0.5), (DirRight, 0.9, 0.5), (DirRight, 0.9, 0.5)]) > 0.95 \<and>
   \<not> activityInRange (smoothingTicks (activityAt 0.9505 0.2)
     [(DirRight, 0.9, 0.5), (DirRight, 0.9, 0.5), (DirRight, 0.9, 0.5)])"
proof -
  have n: "updateBrainValues DirRight 0.9 0.5 (activityAt 0.9505 0.2) = None"
    by (simp add: updateBrainValues_def newLeftValue_def newRightValue_def activityAt_def Let_def)
  then have t: "smoothingTick (activityAt 0.9505 0.2) (DirRight, 0.9, 0.5) = activityAt 0.9505 0.2"
    by (simp add: smoothingTick_def)
  have s: "smoothingTicks (activityAt 0.9505 0.2)
     [(DirRight, 0.9, 0.5), (DirRight, 0.9, 0.5), (DirRight, 0.9, 0.5)] = activityAt 0.9505 0.2"
    by (simp only: smoothingTicks_def foldl_Cons foldl_Nil t)
  have o: "left (activityAt 0.9505 0.2) > 0.95" "\<not> activityInRange (activityAt 0.9505 0.2)"
    by (simp_all add: activityAt_def activityInRange_def)
  from n o show ?thesis unfolding s by blast
qed

theorem activity_scalars_within_bounds_witness:
  "activityInRange (activityAt 0.6 0.65) \<and>
   activityInRange
     (smoothingTicks (activityAt 0.6 0.65) [(DirLeft, 0.5, 0.5), (DirRight, 0.9, 0.1)]) \<and>
   updateBrainValues DirLeft 0.5 0.5 (activityAt 0.6 0.65) = Some (activityAt 0.52 0.7\<lparr>state := ''creative''\<rparr>) \<and>
   activityInRange (activityAt 0.52 0.7\<lparr>state := ''creative''\<rparr>) \<and>
   \<not> activityInRange (activityAt 0.97 0.2) \<and>
   updateBrainValues DirRight 0.5 0.5 (smoothingTicks (activityAt 0.97 0.2) []) \<noteq> None \<and>
   activityInRange
     (smoothingTicks (activityAt 0.97 0.2) ([] @ (DirRight, 0.5, 0.5) # [(DirRight, 0.9, 0.5)]))"
proof -
  have h1: "activityInRange (activityAt 0.6 0.65)"
    by (simp add: activityInRange_def activityAt_def)
  have h2: "updateBrainValues DirLeft 0.5 0.5 (activityAt 0.6 0.65) =
              Some (activityAt 0.52 0.7\<lparr>state := ''creative''\<rparr>)"
    by (simp add: updateBrainValues_def newLeftValue_def newRightValue_def activityAt_def
        Let_def stateLabel_def)
  have h3: "updateBrainValues DirRight 0.5 0.5 (smoothingTicks (activityAt 0.97 0.2) []) \<noteq> None"
    by (simp add: smoothingTicks_def updateBrainValues_def newLeftValue_def newRightValue_def
        activityAt_def Let_def)
  have h4: "\<not> activityInRange (activityAt 0.97 0.2)"
    by (simp add: activityInRange_def activityAt_def)
  from activity_scalars_within_bounds
         [of DirLeft "0.5" "0.5" "activityAt 0.6 0.65"
             "activityAt 0.52 0.7\<lparr>state := ''creative''\<rparr>"
             "[(DirLeft, 0.5, 0.5), (DirRight, 0.9, 0.1)]"
             DirRight "0.5" "0.5" "activityAt 0.97 0.2" "[]" "[(DirRight, 0.9, 0.5)]"] h1 h2 h3 h4
  show ?thesis by blast
qed

lemma spec_clamp_eq: "spec_clamp v = max 0.1 (min 0.95 v)"
  by (simp add: spec_clamp_def max_def min_def)

lemma spec_label_eq: "spec_label l r = stateLabel l r"
  by (simp add: spec_label_def stateLabel_def)

lemma newLeftValue_spec:
  "newLeftValue d rnd bd =
     spec_clamp (fst (spec_smoothed d (left bd) (right bd)) + (rnd * 0.03 - 0.015))"
  by (cases d)
    (simp_all add: newLeftValue_def spec_smoothed_def spec_pull_def spec_clamp_eq Let_def
      algebra_simps)

lemma newRightValue_spec:
  "newRightValue d rnd bd =
     spec_clamp (snd (spec_smoothed d (left bd) (right bd)) + (rnd * 0.03 - 0.015))"
  by (cases d)
    (simp_all add: newRightValue_def spec_smoothed_def spec_pull_def spec_clamp_eq Let_def
      algebra_simps)

lemma jitter_bounds:
  "0 \<le> rnd \<Longrightarrow> rnd < 1 \<Longrightarrow>
     - 0.015 \<le> rnd * 0.03 - 0.015 \<and> rnd * 0.03 - 0.015 \<le> (0.015::real)"
  by simp

text \<open>
  C5. With the draws of \<open>Math.random()\<close> in [0, 1), one tick computes the smoothing rule
  of the specification (\<open>spec_smoothed\<close>: for left, right + (0.9 - right) * 0.2 and
  left - (left - 0.2) * 0.2; for right, the pulls at rate 0.2 towards 0.9 and 0.2; for
  center, 0.1 of the gap towards 0.6 and 0.65), adds to each scalar a jitter of its own
  draw within [-0.015, 0.015], and clamps to [0.1, 0.95]; the state it commits holds
  these two scalars and the label analytical, creative or balanced by the 1.2 ratio.
\<close>

theorem smoothing_tick_formula:
  assumes "0 \<le> rnd1" "rnd1 < 1" "0 \<le> rnd2" "rnd2 < 1"
  shows "\<exists>j1 j2 l' r'.
           - 0.015 \<le> j1 \<and> j1 \<le> 0.015 \<and> - 0.015 \<le> j2 \<and> j2 \<le> 0.015 \<and>
           j1 = rnd1 * 0.03 - 0.015 \<and> j2 = rnd2 * 0.03 - 0.015 \<and>
           l' = spec_clamp (fst (spec_smoothed d (left bd) (right bd)) + j1) \<and>
           r' = spec_clamp (snd (spec_smoothed d (left bd) (right bd)) + j2) \<and>
           newLeftValue d rnd1 bd = l' \<and> newRightValue d rnd2 bd = r' \<and>
           (\<forall>bd'. updateBrainValues d rnd1 rnd2 bd = Some bd' \<longrightarrow>
                  bd' = bd\<lparr>left := l', right := r', state := spec_label l' r'\<rparr>)"
proof -
  have "\<forall>bd'. updateBrainValues d rnd1 rnd2 bd = Some bd' \<longrightarrow>
          bd' = bd\<lparr>left := newLeftValue d rnd1 bd, right := newRightValue d rnd2 bd,
                    state := spec_label (newLeftValue d rnd1 bd) (newRightValue d rnd2 bd)\<rparr>"
    by (auto simp: updateBrainValues_def Let_def spec_label_eq split: if_splits)
  with jitter_bounds [OF assms(1,2)] jitter_bounds [OF assms(3,4)]
  show ?thesis
    using newLeftValue_spec [of d rnd1 bd] newRightValue_spec [of d rnd2 bd] by simp
qed

theorem smoothing_tick_formula_witness:
  "newLeftValue DirLeft 0.5 (activityAt 0.6 0.65) = 0.52 \<and>
   newRightValue DirLeft 0.5 (activityAt 0.6 0.65) = 0.7 \<and>
   updateBrainValues DirLeft 0.5 0.5 (activityAt 0.6 0.65) =
     Some \<lparr>left = 0.52, right = 0.7, state = ''creative'', blink = False,
           eye_position = ''center''\<rparr>"
proof -
  have h: "(0::real) \<le> 0.5" "(0.5::real) < 1" by simp_all
  have u: "updateBrainValues DirLeft 0.5 0.5 (activityAt 0.6 0.65) \<noteq> None"
    by (simp add: updateBrainValues_def newLeftValue_def newRightValue_def activityAt_def
        Let_def)
  from smoothing_tick_formula [OF h h, of DirLeft "activityAt 0.6 0.65"] u
  show ?thesis
    by (auto simp: spec_smoothed_def spec_clamp_def spec_label_def activityAt_def)
qed

text \<open>
  C6 as stated fails. With direction left, both draws 0.5 (jitter 0), left = 0.2 and
  right = 0.5, the left scalar does not move at all (a change below 0.001), yet the tick
  commits: right moves to 0.58 and the label becomes creative.
\<close>

theorem noop_on_either_small_counterexample:
  "\<bar>newLeftValue DirLeft 0.5 (activityAt 0.2 0.5) - left (activityAt 0.2 0.5)\<bar> < 0.001 \<and>
   updateBrainValues DirLeft 0.5 0.5 (activityAt 0.2 0.5) =
     Some \<lparr>left = 0.2, right = 0.58, state = ''creative'', blink = False,
           eye_position = ''center''\<rparr> \<and>
   smoothingTick (activityAt 0.2 0.5) (DirLeft, 0.5, 0.5) \<noteq> activityAt 0.2 0.5"
  by (simp add: updateBrainValues_def smoothingTick_def newLeftValue_def newRightValue_def
      activityAt_def Let_def stateLabel_def)

text \<open>
  C6, amended. A tick makes no call to \<open>setBrainData\<close> exactly when the change of the
  left scalar and the change of the right scalar are both at most 0.001; such a tick
  leaves the activity state as it was.
\<close>

theorem noop_iff_both_small:
  "(updateBrainValues d rnd1 rnd2 bd = None \<longleftrightarrow>
      \<bar>newLeftValue d rnd1 bd - left bd\<bar> \<le> 0.001 \<and>
      \<bar>newRightValue d rnd2 bd - right bd\<bar> \<le> 0.001) \<and>
   (updateBrainValues d rnd1 rnd2 bd = None \<longrightarrow> smoothingTick bd (d, rnd1, rnd2) = bd)"
  by (auto simp: updateBrainValues_def smoothingTick_def Let_def)

theorem noop_iff_both_small_witness:
  "updateBrainValues DirLeft 0.5 0.5 (activityAt 0.2 0.9) = None \<and>
   smoothingTick (activityAt 0.2 0.9) (DirLeft, 0.5, 0.5) = activityAt 0.2 0.9"
proof -
  have h: "\<bar>newLeftValue DirLeft 0.5 (activityAt 0.2 0.9) - left (activityAt 0.2 0.9)\<bar> \<le> 0.001 \<and>
           \<bar>newRightValue DirLeft 0.5 (activityAt 0.2 0.9) - right (activityAt 0.2 0.9)\<bar> \<le> 0.001"
    by (simp add: newLeftValue_def newRightValue_def activityAt_def Let_def)
  from noop_iff_both_small [of DirLeft "0.5" "0.5" "activityAt 0.2 0.9"] h
  show ?thesis by blast
qed

section \<open>Dominance classification\<close>

text \<open>
  C10. \<open>getBrainSide\<close> returns null without brain data; with data it returns left
  exactly when left > right + 0.1, right exactly when right > left + 0.1, and balanced
  exactly when neither holds. The rule differs from the activity label: at left = 0.2,
  right = 0.15 the side is balanced while the label is analytical.
\<close>

theorem getBrainSide_rule:
  "getBrainSide None = None \<and>
   (getBrainSide (Some d) = Some ''left'' \<longleftrightarrow> left d > right d + 0.1) \<and>
   (getBrainSide (Some d) = Some ''right'' \<longleftrightarrow> right d > left d + 0.1) \<and>
   (getBrainSide (Some d) = Some ''balanced'' \<longleftrightarrow>
      \<not> left d > right d + 0.1 \<and> \<not> right d > left d + 0.1) \<and>
   getBrainSide (Some (activityAt 0.2 0.15)) = Some ''balanced'' \<and>
   stateLabel (left (activityAt 0.2 0.15)) (right (activityAt 0.2 0.15)) = ''analytical''"
  by (auto simp: getBrainSide_def stateLabel_def activityAt_def)

section \<open>Direction estimator\<close>

lemma processFrame_counter:
  "eyePositionCounter (processFrame now b s) =
     (if maxCount (countVote b (eyePositionCounter s)) > 5
      then resetCounter (currentPosition (countVote b (eyePositionCounter s)))
      else countVote b (eyePositionCounter s))"
  by (simp add: processFrame_def Let_def)

lemma processFrame_position:
  "eyePosition (processFrame now b s) =
     (if maxCount (countVote b (eyePositionCounter s)) > 5
      then currentPosition (countVote b (eyePositionCounter s))
      else eyePosition s)"
  by (simp add: processFrame_def Let_def)

lemma fireTimers_counter [simp]:
  "eyePositionCounter (fireTimers now s) = eyePositionCounter s"
  by (simp add: fireTimers_def)

lemma fireTimers_position [simp]:
  "eyePosition (fireTimers now s) = eyePosition s"
  by (simp add: fireTimers_def)

lemma frames_append: "frames s (xs @ ys) = frames (frames s xs) ys"
  by (induction xs arbitrary: s) auto

lemma resetCounter_bounded: "votesBounded (resetCounter d)"
  by (cases d) (simp_all add: resetCounter_def votesBounded_def)

lemma resetCounter_votes:
  "voteOf d (resetCounter w) = (if d = w then 2 else 0)"
  by (cases d; cases w) (simp_all add: resetCounter_def voteOf_def)

lemma countVote_left:
  "looksLeft b \<Longrightarrow> countVote b c =
        \<lparr>vote_left = vote_left c + 1,
         vote_right = max 0 (vote_right c - 1),
         vote_center = max 0 (vote_center c - 1)\<rparr>"
  by (simp add: countVote_def)

lemma countVote_right:
  "\<not> looksLeft b \<Longrightarrow> looksRight b \<Longrightarrow> countVote b c =
        \<lparr>vote_left = max 0 (vote_left c - 1),
         vote_right = vote_right c + 1,
         vote_center = max 0 (vote_center c - 1)\<rparr>"
  by (simp add: countVote_def)

lemma countVote_center:
  "\<not> looksLeft b \<Longrightarrow> \<not> looksRight b \<Longrightarrow> countVote b c =
        \<lparr>vote_left = max 0 (vote_left c - 1),
         vote_right = max 0 (vote_right c - 1),
         vote_center = vote_center c + 1\<rparr>"
  by (simp add: countVote_def)

lemma countVote_commit:
  assumes "votesBounded c" "voteOf (newPosition b) c = 5"
  shows "maxCount (countVote b c) > 5 \<and> currentPosition (countVote b c) = newPosition b"
proof (cases "looksLeft b")
  case True
  with assms show ?thesis
    by (auto simp add: countVote_left newPosition_def voteOf_def votesBounded_def maxCount_def
        currentPosition_def)
next
  case False
  show ?thesis
  proof (cases "looksRight b")
    case True
    with False assms show ?thesis
      by (auto simp add: countVote_right newPosition_def voteOf_def votesBounded_def maxCount_def
          currentPosition_def)
  next
    case nr: False
    with False assms show ?thesis
      by (auto simp add: countVote_center newPosition_def voteOf_def votesBounded_def maxCount_def
          currentPosition_def)
  qed
qed


lemma countVote_nocommit:
  assumes "votesBounded c" "voteOf (newPosition b) c \<noteq> 5"
  shows "\<not> maxCount (countVote b c) > 5 \<and> votesBounded (countVote b c)"
proof (cases "looksLeft b")
  case True
  with assms show ?thesis
    by (auto simp add: countVote_left newPosition_def voteOf_def votesBounded_def maxCount_def)
next
  case False
  show ?thesis
  proof (cases "looksRight b")
    case True
    with False assms show ?thesis
      by (auto simp add: countVote_right newPosition_def voteOf_def votesBounded_def maxCount_def)
  next
    case nr: False
    with False assms show ?thesis
      by (auto simp add: countVote_center newPosition_def voteOf_def votesBounded_def maxCount_def)
  qed
qed



lemma step_commit:
  assumes "votesBounded (eyePositionCounter s)"
    and "voteOf (newPosition b) (eyePositionCounter s) = 5"
  shows "eyePosition (processFrame now b (fireTimers now s)) = newPosition b"
    and "eyePositionCounter (processFrame now b (fireTimers now s)) = resetCounter (newPosition b)"
  using countVote_commit [OF assms]
  by (simp_all add: processFrame_counter processFrame_position)

lemma step_nocommit:
  assumes "votesBounded (eyePositionCounter s)"
    and "voteOf (newPosition b) (eyePositionCounter s) \<noteq> 5"
  shows "eyePosition (processFrame now b (fireTimers now s)) = eyePosition s"
    and "eyePositionCounter (processFrame now b (fireTimers now s)) = countVote b (eyePositionCounter s)"
  using countVote_nocommit [OF assms]
  by (simp_all add: processFrame_counter processFrame_position)

lemma step_bounded:
  assumes "votesBounded (eyePositionCounter s)"
  shows "votesBounded (eyePositionCounter (processFrame now b (fireTimers now s)))"
proof (cases "voteOf (newPosition b) (eyePositionCounter s) = 5")
  case True
  from step_commit(2) [OF assms True] show ?thesis by (simp add: resetCounter_bounded)
next
  case False
  from step_nocommit(2) [OF assms False] countVote_nocommit [OF assms False]
  show ?thesis by simp
qed

lemma frames_bounded:
  "votesBounded (eyePositionCounter s) \<Longrightarrow> votesBounded (eyePositionCounter (frames s hist))"
  by (induction hist arbitrary: s) (auto simp: step_bounded)

lemma start_bounded: "votesBounded (eyePositionCounter startEyeTracking)"
  by (simp add: startEyeTracking_def votesBounded_def)

lemma reachable_bounded: "votesBounded (eyePositionCounter (frames startEyeTracking hist))"
  by (rule frames_bounded [OF start_bounded])












lemmas eval_defs = processFrame_def fireTimers_def countVote_def looksLeft_def looksRight_def
  js_div_def maxCount_def sample_def startEyeTracking_def Let_def currentPosition_def
  resetCounter_def



lemma currentPosition_max: "voteOf (currentPosition c) c = maxCount c"
  by (auto simp: currentPosition_def voteOf_def maxCount_def)

text \<open>
  C7. After any history of frames the three counters are non-negative integers. When a
  frame's vote lifts the largest counter above 5, \<open>eyePosition\<close> becomes the direction
  that owns it, that direction's counter is set to 2 and the two others to 0; otherwise
  \<open>eyePosition\<close> stays and the counters are those after the vote.
\<close>

theorem vote_counter_invariant:
  "0 \<le> vote_left (eyePositionCounter (frames startEyeTracking hist)) \<and>
   0 \<le> vote_center (eyePositionCounter (frames startEyeTracking hist)) \<and>
   0 \<le> vote_right (eyePositionCounter (frames startEyeTracking hist)) \<and>
   (maxCount (countVote b (eyePositionCounter (frames startEyeTracking hist))) > 5 \<longrightarrow>
      voteOf (currentPosition (countVote b (eyePositionCounter (frames startEyeTracking hist))))
        (countVote b (eyePositionCounter (frames startEyeTracking hist))) > 5 \<and>
      eyePosition (frames startEyeTracking (hist @ [(t, b)])) =
        currentPosition (countVote b (eyePositionCounter (frames startEyeTracking hist))) \<and>
      voteOf (eyePosition (frames startEyeTracking (hist @ [(t, b)])))
        (eyePositionCounter (frames startEyeTracking (hist @ [(t, b)]))) = 2 \<and>
      (\<forall>d. d \<noteq> eyePosition (frames startEyeTracking (hist @ [(t, b)])) \<longrightarrow>
           voteOf d (eyePositionCounter (frames startEyeTracking (hist @ [(t, b)]))) = 0)) \<and>
   (\<not> maxCount (countVote b (eyePositionCounter (frames startEyeTracking hist))) > 5 \<longrightarrow>
      eyePosition (frames startEyeTracking (hist @ [(t, b)])) =
        eyePosition (frames startEyeTracking hist) \<and>
      eyePositionCounter (frames startEyeTracking (hist @ [(t, b)])) =
        countVote b (eyePositionCounter (frames startEyeTracking hist)))"
proof -
  let ?s = "frames startEyeTracking hist"
  have fr: "frames startEyeTracking (hist @ [(t, b)]) = processFrame t b (fireTimers t ?s)"
    by (simp add: frames_append)
  have nn: "0 \<le> vote_left (eyePositionCounter ?s) \<and> 0 \<le> vote_center (eyePositionCounter ?s) \<and>
            0 \<le> vote_right (eyePositionCounter ?s)"
    using reachable_bounded [of hist] by (simp add: votesBounded_def)
  show ?thesis
    using nn currentPosition_max [of "countVote b (eyePositionCounter ?s)"]
    by (simp add: fr processFrame_counter processFrame_position resetCounter_votes)
qed

theorem vote_counter_invariant_witness:
  "maxCount (countVote (sample 120 90 80) (eyePositionCounter (frames startEyeTracking
      (map (\<lambda>t. (t, sample 120 90 80)) [0, 50, 100, 150, 200])))) > 5 \<and>
   eyePosition (frames startEyeTracking
      (map (\<lambda>t. (t, sample 120 90 80)) [0, 50, 100, 150, 200] @ [(250, sample 120 90 80)])) = DirLeft \<and>
   eyePositionCounter (frames startEyeTracking
      (map (\<lambda>t. (t, sample 120 90 80)) [0, 50, 100, 150, 200] @ [(250, sample 120 90 80)])) =
     \<lparr>vote_left = 2, vote_right = 0, vote_center = 0\<rparr>"
proof -
  let ?b = "sample 120 90 80"
  let ?past = "map (\<lambda>t. (t, ?b)) [0, 50, 100, 150, 200]"
  let ?s' = "frames startEyeTracking (?past @ [(250, ?b)])"
  have c: "eyePositionCounter (frames startEyeTracking ?past) =
             \<lparr>vote_left = 5, vote_right = 0, vote_center = 0\<rparr>"
    by (simp add: eval_defs)
  have m: "maxCount (countVote ?b (eyePositionCounter (frames startEyeTracking ?past))) > 5"
    unfolding c by (simp add: countVote_def looksLeft_def sample_def js_div_def maxCount_def)
  have w: "currentPosition (countVote ?b (eyePositionCounter (frames startEyeTracking ?past))) = DirLeft"
    unfolding c by (simp add: countVote_def looksLeft_def sample_def js_div_def maxCount_def
        currentPosition_def)
  from vote_counter_invariant [of ?past ?b 250] m
  have "eyePosition ?s' =
          currentPosition (countVote ?b (eyePositionCounter (frames startEyeTracking ?past))) \<and>
        voteOf (eyePosition ?s') (eyePositionCounter ?s') = 2 \<and>
        (\<forall>d. d \<noteq> eyePosition ?s' \<longrightarrow> voteOf d (eyePositionCounter ?s') = 0)"
    by blast
  with w have e: "eyePosition ?s' = DirLeft" and l: "voteOf DirLeft (eyePositionCounter ?s') = 2"
    and r: "voteOf DirRight (eyePositionCounter ?s') = 0"
    and ce: "voteOf DirCenter (eyePositionCounter ?s') = 0"
    by auto
  from l r ce have "eyePositionCounter ?s' = \<lparr>vote_left = 2, vote_right = 0, vote_center = 0\<rparr>"
    by (cases "eyePositionCounter ?s'") (simp add: voteOf_def)
  with m e show ?thesis by blast
qed

section \<open>Blink flag\<close>

lemma processFrame_blink_set:
  assumes "\<bar>leftBrightness b + centerBrightness b + rightBrightness b - prevTotalBrightness s\<bar> > 15"
  shows "blinkDetected (processFrame now b s)"
    and "now + 300 \<in> set (blinkTimers (processFrame now b s))"
  using assms by (simp_all add: processFrame_def Let_def)

lemma processFrame_blink_untouched:
  assumes "\<not> \<bar>leftBrightness b + centerBrightness b + rightBrightness b - prevTotalBrightness s\<bar> > 15"
  shows "blinkDetected (processFrame now b s) = blinkDetected s"
    and "blinkTimers (processFrame now b s) = blinkTimers s"
  using assms by (simp_all add: processFrame_def Let_def)

lemma processFrame_keeps_timers:
  "due \<in> set (blinkTimers s) \<Longrightarrow> due \<in> set (blinkTimers (processFrame now b s))"
  by (simp add: processFrame_def Let_def)

lemma fireTimers_keeps_later:
  "due \<in> set (blinkTimers s) \<Longrightarrow> now < due \<Longrightarrow> due \<in> set (blinkTimers (fireTimers now s))"
  by (simp add: fireTimers_def)

lemma frames_keep_later:
  "due \<in> set (blinkTimers s) \<Longrightarrow> \<forall>f\<in>set rest. fst f < due \<Longrightarrow>
     due \<in> set (blinkTimers (frames s rest))"
proof (induction rest arbitrary: s)
  case Nil
  then show ?case by simp
next
  case (Cons f rest)
  obtain t b where f: "f = (t, b)" by (cases f)
  from Cons.prems have "t < due" by (simp add: f)
  with Cons.prems(1) have "due \<in> set (blinkTimers (processFrame t b (fireTimers t s)))"
    by (simp add: processFrame_keeps_timers fireTimers_keeps_later)
  from Cons.IH [OF this] Cons.prems(2) show ?case by (simp add: f)
qed

lemma fireTimers_clears:
  "due \<in> set (blinkTimers s) \<Longrightarrow> due \<le> now \<Longrightarrow> \<not> blinkDetected (fireTimers now s)"
  by (auto simp: fireTimers_def list_ex_iff)

lemma fireTimers_idle:
  "\<forall>due\<in>set (blinkTimers s). now < due \<Longrightarrow> fireTimers now s = s"
  by (auto simp: fireTimers_def list_ex_iff)

lemma processFrame_blink_stays:
  "blinkDetected s \<Longrightarrow> blinkDetected (processFrame now b s)"
  by (simp add: processFrame_def Let_def)

lemma processFrame_timers_cases:
  "blinkTimers (processFrame now b s) = blinkTimers s \<or>
   blinkTimers (processFrame now b s) = blinkTimers s @ [now + 300]"
  by (simp add: processFrame_def Let_def)

lemma blink_held:
  assumes "blinkDetected s" and "\<forall>due\<in>set (blinkTimers s). lo + 300 \<le> due"
    and "\<forall>f\<in>set rest. lo \<le> fst f \<and> fst f < lo + 300"
  shows "blinkDetected (frames s rest) \<and>
         (\<forall>due\<in>set (blinkTimers (frames s rest)). lo + 300 \<le> due)"
  using assms
proof (induction rest arbitrary: s)
  case Nil
  then show ?case by simp
next
  case (Cons f rest)
  obtain t b where f: "f = (t, b)" by (cases f)
  from Cons.prems(3) have t: "lo \<le> t" "t < lo + 300" by (simp_all add: f)
  from Cons.prems(2) t(2) have "\<forall>due\<in>set (blinkTimers s). t < due" by auto
  then have idle: "fireTimers t s = s" by (rule fireTimers_idle)
  have b1: "blinkDetected (processFrame t b s)"
    by (rule processFrame_blink_stays [OF Cons.prems(1)])
  have b2: "\<forall>due\<in>set (blinkTimers (processFrame t b s)). lo + 300 \<le> due"
    using processFrame_timers_cases [of t b s] Cons.prems(2) t(1) by auto
  from Cons.prems(3) have b3: "\<forall>f\<in>set rest. lo \<le> fst f \<and> fst f < lo + 300" by simp
  from Cons.IH [OF b1 b2 b3] show ?case by (simp add: f idle)
qed

lemma blink_lasts:
  assumes c: "\<bar>leftBrightness b + centerBrightness b + rightBrightness b - prevTotalBrightness s\<bar> > 15"
    and p: "\<forall>due\<in>set (blinkTimers s). now + 300 \<le> due"
    and r: "\<forall>f\<in>set rest. now \<le> fst f \<and> fst f < now + 300"
    and T: "T < now + 300"
  shows "blinkDetected (fireTimers T (frames (processFrame now b s) rest))"
proof -
  have b1: "blinkDetected (processFrame now b s)" by (rule processFrame_blink_set(1) [OF c])
  have b2: "\<forall>due\<in>set (blinkTimers (processFrame now b s)). now + 300 \<le> due"
    using processFrame_timers_cases [of now b s] p by auto
  from blink_held [OF b1 b2 r]
  have h: "blinkDetected (frames (processFrame now b s) rest)"
    and k: "\<forall>due\<in>set (blinkTimers (frames (processFrame now b s) rest)). now + 300 \<le> due"
    by blast+
  from k T have "\<forall>due\<in>set (blinkTimers (frames (processFrame now b s) rest)). T < due" by auto
  from fireTimers_idle [OF this] h show ?thesis by simp
qed

lemma blink_cleared_by_earlier:
  assumes d: "due \<in> set (blinkTimers s)"
    and r: "\<forall>f\<in>set rest. fst f < due"
  shows "\<not> blinkDetected (fireTimers due (frames (processFrame now b s) rest))"
proof -
  from d have "due \<in> set (blinkTimers (processFrame now b s))"
    by (rule processFrame_keeps_timers)
  from frames_keep_later [OF this r] show ?thesis
    by (rule fireTimers_clears) simp
qed


text \<open>
  C8, amended. A frame whose total brightness differs from the previous total by more
  than 15 sets the blink flag and schedules a clear for 300ms later; whatever frames
  arrive before that time, the flag is false once the timers due 300ms after the frame
  have run. When no clear is pending that falls due earlier, the flag stays set at every
  time before that, whatever frames arrive from the crossing on: it is cleared exactly
  300ms after being set. When the clear of an earlier crossing is still pending, the flag
  is false once that earlier timer has run, less than 300ms after being set. A frame
  below the threshold leaves the flag and the timers alone.
\<close>

theorem blink_set_and_cleared:
  "(\<bar>leftBrightness b + centerBrightness b + rightBrightness b - prevTotalBrightness s\<bar> > 15 \<longrightarrow>
      blinkDetected (processFrame now b s) \<and>
      now + 300 \<in> set (blinkTimers (processFrame now b s)) \<and>
      (\<forall>rest. (\<forall>f\<in>set rest. fst f < now + 300) \<longrightarrow>
         \<not> blinkDetected (fireTimers (now + 300) (frames (processFrame now b s) rest))) \<and>
      ((\<forall>due\<in>set (blinkTimers s). now + 300 \<le> due) \<longrightarrow>
         (\<forall>rest T. (\<forall>f\<in>set rest. now \<le> fst f \<and> fst f < now + 300) \<and> T < now + 300 \<longrightarrow>
            blinkDetected (fireTimers T (frames (processFrame now b s) rest)))) \<and>
      (\<forall>due rest. due \<in> set (blinkTimers s) \<and> now < due \<and> due < now + 300 \<and>
           (\<forall>f\<in>set rest. fst f < due) \<longrightarrow>
           \<not> blinkDetected (fireTimers due (frames (processFrame now b s) rest)))) \<and>
   (\<not> \<bar>leftBrightness b + centerBrightness b + rightBrightness b - prevTotalBrightness s\<bar> > 15 \<longrightarrow>
      blinkDetected (processFrame now b s) = blinkDetected s \<and>
      blinkTimers (processFrame now b s) = blinkTimers s)"
proof (intro conjI impI allI)
  assume a: "\<bar>leftBrightness b + centerBrightness b + rightBrightness b - prevTotalBrightness s\<bar> > 15"
  show "blinkDetected (processFrame now b s)" by (rule processFrame_blink_set(1) [OF a])
  show t: "now + 300 \<in> set (blinkTimers (processFrame now b s))"
    by (rule processFrame_blink_set(2) [OF a])
  {
    fix rest :: "(int \<times> brightness) list"
    assume "\<forall>f\<in>set rest. fst f < now + 300"
    from frames_keep_later [OF t this]
    show "\<not> blinkDetected (fireTimers (now + 300) (frames (processFrame now b s) rest))"
      by (rule fireTimers_clears) simp
  }
  {
    fix rest :: "(int \<times> brightness) list" and T
    assume p: "\<forall>due\<in>set (blinkTimers s). now + 300 \<le> due"
      and "(\<forall>f\<in>set rest. now \<le> fst f \<and> fst f < now + 300) \<and> T < now + 300"
    then show "blinkDetected (fireTimers T (frames (processFrame now b s) rest))"
      using blink_lasts [OF a p] by blast
  }
  {
    fix rest :: "(int \<times> brightness) list" and due
    assume "due \<in> set (blinkTimers s) \<and> now < due \<and> due < now + 300 \<and>
            (\<forall>f\<in>set rest. fst f < due)"
    then show "\<not> blinkDetected (fireTimers due (frames (processFrame now b s) rest))"
      using blink_cleared_by_earlier by blast
  }
next
  assume a: "\<not> \<bar>leftBrightness b + centerBrightness b + rightBrightness b - prevTotalBrightness s\<bar> > 15"
  show "blinkDetected (processFrame now b s) = blinkDetected s"
    by (rule processFrame_blink_untouched(1) [OF a])
  show "blinkTimers (processFrame now b s) = blinkTimers s"
    by (rule processFrame_blink_untouched(2) [OF a])
qed



text \<open>
  C8 as stated fails. Frames at 0ms, 200ms and 400ms each cross the threshold. The timer
  of the first frame clears the flag at 300ms, so the flag is false when the frame at
  400ms sets it; the timer of the second frame, due at 500ms, then clears it: 100ms
  after it was set, not 300ms.
\<close>

theorem blink_cleared_early_counterexample:
  "\<not> blinkDetected (fireTimers 400
        (frames startEyeTracking [(0, sample 100 100 100), (200, sample 90 90 90)])) \<and>
   \<bar>leftBrightness (sample 100 100 100) + centerBrightness (sample 100 100 100) +
     rightBrightness (sample 100 100 100) -
     prevTotalBrightness (fireTimers 400
        (frames startEyeTracking [(0, sample 100 100 100), (200, sample 90 90 90)]))\<bar> > 15 \<and>
   blinkDetected
     (frames startEyeTracking
        [(0, sample 100 100 100), (200, sample 90 90 90), (400, sample 100 100 100)]) \<and>
   blinkTimers
     (frames startEyeTracking
        [(0, sample 100 100 100), (200, sample 90 90 90), (400, sample 100 100 100)]) = [500, 700] \<and>
   \<not> blinkDetected (fireTimers 500
        (frames startEyeTracking
           [(0, sample 100 100 100), (200, sample 90 90 90), (400, sample 100 100 100)]))"
  by (simp add: eval_defs)

theorem blink_set_and_cleared_witness:
  "blinkDetected (processFrame 0 (sample 100 100 100) startEyeTracking) \<and>
   \<not> blinkDetected (fireTimers 300
        (frames (processFrame 0 (sample 100 100 100) startEyeTracking)
           [(100, sample 100 100 100), (200, sample 90 90 90)])) \<and>
   blinkDetected (fireTimers 299
        (frames (processFrame 0 (sample 100 100 100) startEyeTracking)
           [(100, sample 100 100 100), (200, sample 90 90 90)])) \<and>
   \<not> blinkDetected (fireTimers 500
        (frames (processFrame 400 (sample 100 100 100)
           (fireTimers 400 (frames startEyeTracking
              [(0, sample 100 100 100), (200, sample 90 90 90)]))) [])) \<and>
   blinkDetected (processFrame 50 (sample 100 100 100)
        (processFrame 0 (sample 100 100 100) startEyeTracking))"
proof -
  let ?b = "sample 100 100 100"
  let ?rest = "[(100::int, sample 100 100 100), (200, sample 90 90 90)]"
  let ?s1 = "processFrame 0 ?b startEyeTracking"
  let ?s4 = "fireTimers 400 (frames startEyeTracking [(0, ?b), (200, sample 90 90 90)])"
  have h1: "\<bar>leftBrightness ?b + centerBrightness ?b + rightBrightness ?b -
             prevTotalBrightness startEyeTracking\<bar> > 15"
    by (simp add: sample_def startEyeTracking_def)
  have h2: "\<forall>f\<in>set ?rest. fst f < (0::int) + 300" by simp
  have h3: "\<not> \<bar>leftBrightness ?b + centerBrightness ?b + rightBrightness ?b -
             prevTotalBrightness ?s1\<bar> > 15"
    by (simp add: sample_def startEyeTracking_def processFrame_def Let_def)
  have h4: "\<forall>due\<in>set (blinkTimers startEyeTracking). (0::int) + 300 \<le> due"
    by (simp add: startEyeTracking_def)
  have h5: "(\<forall>f\<in>set ?rest. (0::int) \<le> fst f \<and> fst f < 0 + 300) \<and> (299::int) < 0 + 300"
    by simp
  have h6: "\<bar>leftBrightness ?b + centerBrightness ?b + rightBrightness ?b -
             prevTotalBrightness ?s4\<bar> > 15"
    by (simp add: eval_defs)
  have h7: "(500::int) \<in> set (blinkTimers ?s4) \<and> (400::int) < 500 \<and> (500::int) < 400 + 300 \<and>
            (\<forall>f\<in>set ([] :: (int \<times> brightness) list). fst f < 500)"
    by (simp add: eval_defs)
  note T1 = blink_set_and_cleared [of ?b startEyeTracking "0::int"]
  from T1 h1 have a: "blinkDetected ?s1" by blast
  from T1 h1 h2 have c: "\<not> blinkDetected (fireTimers (0 + 300) (frames ?s1 ?rest))" by blast
  then have c': "\<not> blinkDetected (fireTimers 300 (frames ?s1 ?rest))"
    unfolding add_0 .
  from T1 h1 h4 h5 have k: "blinkDetected (fireTimers 299 (frames ?s1 ?rest))" by blast
  from blink_set_and_cleared [of ?b ?s4 "400::int"] h6 h7
  have e: "\<not> blinkDetected (fireTimers 500 (frames (processFrame 400 ?b ?s4) []))" by blast
  from blink_set_and_cleared [of ?b ?s1 50] h3 a
  have d: "blinkDetected (processFrame 50 ?b ?s1)" by blast
  from a c' k e d show ?thesis by blast
qed

section \<open>Frame sampler\<close>

lemma byteAt_in: "i < length data \<Longrightarrow> byteAt data i = Some (real (unat (data ! i)))"
  by (simp add: byteAt_def)

lemma pixel_in_range:
  assumes "length data mod 4 = 0" "16 * j < length data"
  shows "16 * j + 2 < length data"
proof -
  from assms(1) have "4 dvd length data" by (simp add: mod_eq_0_iff_dvd)
  then obtain k where k: "length data = 4 * k" by (auto elim: dvdE)
  with assms(2) have "4 * j < k" by linarith
  then have "4 * j + 1 \<le> k" by linarith
  with k show ?thesis by linarith
qed

lemma sampled_index:
  "j < (n + 15) div 16 \<longleftrightarrow> 16 * j < (n::nat)"
proof -
  have "j < (n + 15) div 16 \<longleftrightarrow> Suc j \<le> (n + 15) div 16" by linarith
  also have "\<dots> \<longleftrightarrow> Suc j * 16 \<le> n + 15" by (simp add: less_eq_div_iff_mult_less_eq)
  also have "\<dots> \<longleftrightarrow> 16 * j < n" by auto
  finally show ?thesis .
qed

lemma loop_step:
  assumes "length data mod 4 = 0" "16 * j < length data"
  shows "brightnessLoop data (16 * j) (Some acc) c =
         brightnessLoop data (16 * Suc j) (Some (acc + spec_luma data (16 * j))) (Suc c)"
proof -
  from pixel_in_range [OF assms] have r: "16 * j + 2 < length data" .
  then have w: "weighted (byteAt data (16 * j)) (byteAt data (16 * j + 1)) (byteAt data (16 * j + 2)) =
        Some (spec_luma data (16 * j))"
    by (simp add: byteAt_in weighted_def spec_luma_def)
  have i: "16 * Suc j = 16 * j + 16" by simp
  show ?thesis
    unfolding i
    by (subst brightnessLoop.simps) (simp only: assms(2) if_True w addNum_def prod.case option.case Suc_eq_plus1)
qed

lemma loop_stop:
  assumes "\<not> i < length data"
  shows "brightnessLoop data i acc c = (acc, c)"
  using assms by (subst brightnessLoop.simps) simp

lemma loop_spec:
  assumes len: "length data mod 4 = 0"
  shows "j \<le> (length data + 15) div 16 \<Longrightarrow>
         brightnessLoop data (16 * j) (Some acc) c =
           (Some (acc + sum_list (map (spec_luma data) (map (\<lambda>j. 16 * j) [j ..< (length data + 15) div 16]))),
            c + ((length data + 15) div 16 - j))"
proof (induction "(length data + 15) div 16 - j" arbitrary: j acc c)
  case 0
  then have j: "j = (length data + 15) div 16" by simp
  then have "\<not> 16 * j < length data" using sampled_index [of j "length data"] by simp
  from loop_stop [OF this] j show ?case by simp
next
  case (Suc k)
  then have lt: "j < (length data + 15) div 16" by simp
  then have in_range: "16 * j < length data" by (simp add: sampled_index)
  from Suc(2) have k: "k = (length data + 15) div 16 - Suc j" by simp
  from lt have le: "Suc j \<le> (length data + 15) div 16" by simp
  from lt have u: "[j ..< (length data + 15) div 16] = j # [Suc j ..< (length data + 15) div 16]"
    by (simp add: upt_conv_Cons)
  show ?case
    unfolding loop_step [OF len in_range] Suc(1) [OF k le] u using lt by simp
qed

lemma calculateBrightness_spec:
  assumes len: "length data mod 4 = 0"
  shows "calculateBrightness data =
           Some (if spec_sampled data = [] then 0
                 else spec_mean (map (spec_luma data) (spec_sampled data)))"
proof -
  have "brightnessLoop data (16 * 0) (Some 0) 0 =
          (Some (0 + sum_list (map (spec_luma data) (spec_sampled data))),
           0 + ((length data + 15) div 16 - 0))"
    unfolding spec_sampled_def by (rule loop_spec [OF len]) simp
  then have "brightnessLoop data 0 (Some 0) 0 =
          (Some (sum_list (map (spec_luma data) (spec_sampled data))), length (spec_sampled data))"
    by (simp add: spec_sampled_def)
  then show ?thesis
    by (simp add: calculateBrightness_def spec_mean_def)
qed

lemma byte_range: "0 \<le> real (unat (w :: 8 word)) \<and> real (unat w) \<le> 255"
proof -
  have "unat w < 2 ^ LENGTH(8)" by (rule unsigned_less)
  then have "unat w \<le> 255" by simp
  then have "real (unat w) \<le> real 255" by (rule of_nat_mono)
  moreover have "0 \<le> real (unat w)" by (rule of_nat_0_le_iff)
  ultimately show ?thesis by simp
qed

lemma spec_luma_range:
  "0 \<le> spec_luma data off \<and> spec_luma data off \<le> 255"
proof -
  define r g b where "r = real (unat (data ! off))" and "g = real (unat (data ! (off + 1)))"
    and "b = real (unat (data ! (off + 2)))"
  have "0 \<le> r \<and> r \<le> 255" "0 \<le> g \<and> g \<le> 255" "0 \<le> b \<and> b \<le> 255"
    unfolding r_def g_def b_def by (rule byte_range)+
  moreover have "spec_luma data off = 0.299 * r + 0.587 * g + 0.114 * b"
    unfolding spec_luma_def r_def g_def b_def ..
  ultimately show ?thesis by simp
qed

lemma sum_list_range:
  "(\<forall>v\<in>set vs. 0 \<le> v \<and> v \<le> (255::real)) \<Longrightarrow>
     0 \<le> sum_list vs \<and> sum_list vs \<le> 255 * real (length vs)"
  by (induction vs) (auto simp: algebra_simps)

lemma spec_mean_range:
  assumes "vs \<noteq> []" "\<forall>v\<in>set vs. 0 \<le> v \<and> v \<le> (255::real)"
  shows "0 \<le> spec_mean vs \<and> spec_mean vs \<le> 255"
proof -
  from assms(1) have n: "0 < real (length vs)" by simp
  from sum_list_range [OF assms(2)] n show ?thesis
    by (simp add: spec_mean_def pos_divide_le_eq)
qed

lemma spec_sampled_empty: "spec_sampled data = [] \<longleftrightarrow> data = []"
proof -
  have "0 < (length data + 15) div 16 \<longleftrightarrow> 0 < length data"
    using sampled_index [of 0 "length data"] by simp
  then have "(length data + 15) div 16 = 0 \<longleftrightarrow> length data = 0"
    by (metis gr0I less_numeral_extra(3))
  then show ?thesis by (simp add: spec_sampled_def)
qed

text \<open>
  C9. For a buffer of whole RGBA pixels (a length divisible by 4; the bytes are within
  [0, 255] by their type), \<open>calculateBrightness\<close> returns the arithmetic mean of
  0.299 R + 0.587 G + 0.114 B over every fourth pixel, a number within [0, 255]; when no
  pixel is sampled, which happens for the empty buffer only, it returns 0.
\<close>

theorem calculateBrightness_mean:
  assumes "length data mod 4 = 0"
  shows "calculateBrightness data =
           Some (if spec_sampled data = [] then 0
                 else spec_mean (map (spec_luma data) (spec_sampled data))) \<and>
         (\<exists>v. calculateBrightness data = Some v \<and> 0 \<le> v \<and> v \<le> 255) \<and>
         (spec_sampled data = [] \<longleftrightarrow> data = []) \<and>
         calculateBrightness [] = Some 0"
proof -
  note eq = calculateBrightness_spec [OF assms]
  have rng: "\<exists>v. calculateBrightness data = Some v \<and> 0 \<le> v \<and> v \<le> 255"
  proof (cases "spec_sampled data = []")
    case True
    with eq show ?thesis by simp
  next
    case False
    then have "map (spec_luma data) (spec_sampled data) \<noteq> []" by simp
    from spec_mean_range [OF this] spec_luma_range have
      "0 \<le> spec_mean (map (spec_luma data) (spec_sampled data)) \<and>
       spec_mean (map (spec_luma data) (spec_sampled data)) \<le> 255"
      by simp
    with eq False show ?thesis by simp
  qed
  have "calculateBrightness [] = Some 0"
    by (simp add: calculateBrightness_def loop_stop)
  with eq rng spec_sampled_empty show ?thesis by blast
qed


theorem calculateBrightness_mean_witness:
  "length [200, 100, 50, 255, 9, 9, 9, 255, 9, 9, 9, 255, 9, 9, 9, 255, 0, 0, 255, 255 :: 8 word] mod 4 = 0 \<and>
   calculateBrightness
     [200, 100, 50, 255, 9, 9, 9, 255, 9, 9, 9, 255, 9, 9, 9, 255, 0, 0, 255, 255] = Some 76.635 \<and>
   spec_sampled
     [200, 100, 50, 255, 9, 9, 9, 255, 9, 9, 9, 255, 9, 9, 9, 255, 0, 0, 255, 255 :: 8 word] = [0, 16]"
proof -
  let ?d = "[200, 100, 50, 255, 9, 9, 9, 255, 9, 9, 9, 255, 9, 9, 9, 255, 0, 0, 255, 255 :: 8 word]"
  have h: "length ?d mod 4 = 0" by simp
  have s: "spec_sampled ?d = [0, 16]"
    by (simp add: spec_sampled_def upt_conv_Cons)
  have m: "spec_mean (map (spec_luma ?d) [0, 16]) = 76.635"
    by (simp add: spec_mean_def spec_luma_def)
  from calculateBrightness_mean [OF h]
  have "calculateBrightness ?d =
          Some (if spec_sampled ?d = [] then 0 else spec_mean (map (spec_luma ?d) (spec_sampled ?d)))"
    by blast
  then have "calculateBrightness ?d = Some 76.635"
    unfolding s m by simp
  with h s show ?thesis by blast
qed

end
